theory Spec2Isabelle
  imports Complex_Main "HOL-Library.Word" "HOL-Library.Log_Nat"
begin

section \<open>JavaScript numbers\<close>

text \<open>
  A JavaScript number is an IEEE 754 double. The luminance of \<open>utils.ts\<close> is a sum of
  three products of a decimal literal and an integer, and whether it exceeds the threshold
  can hinge on the last bit, so that arithmetic is modelled exactly: every literal, product
  and sum is rounded to the nearest number with a 53-bit significand, ties to the even
  significand. Values are rationals; the exponent range of a double is not modelled (no
  overflow, no subnormal numbers), which is exact for the magnitudes a pixel produces.

  \<open>ilog2 q\<close> is the binary exponent of a positive rational, read off the bit lengths of
  its numerator and denominator.
\<close>

definition ilog2 :: "rat \<Rightarrow> int" where
  "ilog2 q = (let (n, d) = quotient_of q; t = bitlen n - bitlen d
              in if 2 powi t \<le> q then t else t - 1)"

definition round_half_even :: "rat \<Rightarrow> int" where
  "round_half_even m =
     (let f = \<lfloor>m\<rfloor>; r = m - of_int f
      in if r < 1 / 2 then f else if 1 / 2 < r then f + 1 else if even f then f else f + 1)"

definition fl :: "rat \<Rightarrow> rat" where
  "fl q = (if q = 0 then 0
           else let e = ilog2 \<bar>q\<bar> - 52
                in sgn q * of_int (round_half_even (\<bar>q\<bar> / 2 powi e)) * 2 powi e)"

text \<open>A decimal literal, \<open>*\<close> and \<open>+\<close> on doubles.\<close>

definition js_lit :: "rat \<Rightarrow> rat" where
  "js_lit q = fl q"

definition js_mul :: "rat \<Rightarrow> rat \<Rightarrow> rat" where
  "js_mul a b = fl (a * b)"

definition js_add :: "rat \<Rightarrow> rat \<Rightarrow> rat" where
  "js_add a b = fl (a + b)"

text \<open>
  The geometry of \<open>App.tsx\<close> (fitting, jitter, export coordinates) is modelled over the
  reals: \<open>Math.cos\<close>, \<open>Math.sin\<close> and \<open>Math.random\<close> have no bit-exact specification, and
  no property below depends on the last bit of a coordinate. \<open>Math.round\<close> rounds a half
  upwards.
\<close>

definition Math_round :: "real \<Rightarrow> int" where
  "Math_round v = \<lfloor>v + 1 / 2\<rfloor>"

definition Math_ceil :: "real \<Rightarrow> int" where
  "Math_ceil v = \<lceil>v\<rceil>"


section \<open>utils.ts\<close>

text \<open>
  \<open>getGrayscaleValue(alpla, r, g, b)\<close>: the first parameter is the threshold. The
  arguments are integers here, as every caller passes them (a slider value and three bytes
  of the pixel array).
\<close>

definition luminance :: "int \<Rightarrow> int \<Rightarrow> int \<Rightarrow> rat" where
  "luminance r g b =
     js_add (js_add (js_mul (js_lit (299 / 1000)) (of_int r))
                    (js_mul (js_lit (587 / 1000)) (of_int g)))
            (js_mul (js_lit (114 / 1000)) (of_int b))"

definition getGrayscaleValue :: "int \<Rightarrow> int \<Rightarrow> int \<Rightarrow> int \<Rightarrow> int" where
  "getGrayscaleValue alpla r g b =
     (let grayscale = luminance r g b
      in if grayscale > of_int alpla then 255 else 0)"


section \<open>App.tsx: the text of a coordinate\<close>

definition digit_char :: "nat \<Rightarrow> char" where
  "digit_char d = ''0123456789'' ! d"

fun digits :: "nat \<Rightarrow> string" where
  "digits n = (if n < 10 then [digit_char n] else digits (n div 10) @ [digit_char (n mod 10)])"

declare digits.simps [simp del]

text \<open>
  \<open>v.toFixed(2)\<close>: the sign of \<open>v\<close>, then the integer nearest to \<open>\<bar>v\<bar> * 100\<close> (the larger
  one of two) written with its last two digits after a point. From \<open>10^21\<close> on JavaScript
  prints an exponent instead; that branch is outside the model, and the theorems about the
  text assume the bound.
\<close>

definition toFixed2 :: "real \<Rightarrow> string" where
  "toFixed2 v =
     (let s = (if v < 0 then ''-'' else []);
          n = nat \<lfloor>\<bar>v\<bar> * 100 + 1 / 2\<rfloor>
      in s @ digits (n div 100) @ ''.'' @ [digit_char (n mod 100 div 10), digit_char (n mod 10)])"

text \<open>\<open>s.replace(a, b)\<close> with string arguments replaces the first occurrence only.\<close>

fun replace_first :: "char \<Rightarrow> char \<Rightarrow> string \<Rightarrow> string" where
  "replace_first a b [] = []"
| "replace_first a b (c # cs) = (if c = a then b # cs else c # replace_first a b cs)"

text \<open>\<open>String(v.toFixed(2)).replace('.', ',')\<close>\<close>

definition comma_fixed2 :: "real \<Rightarrow> string" where
  "comma_fixed2 v = replace_first (CHR ''.'') (CHR '','') (toFixed2 v)"

definition newline :: string where
  "newline = [CHR 0x0A]"

text \<open>\<open>positions.join('\n')\<close>\<close>

fun join :: "string \<Rightarrow> string list \<Rightarrow> string" where
  "join sep [] = []"
| "join sep [s] = s"
| "join sep (s # t # ts) = s @ sep @ join sep (t # ts)"


section \<open>App.tsx: the state of the component and of its host\<close>

text \<open>
  A decoded image: its natural size, and the bytes that \<open>drawImage\<close> followed by
  \<open>getImageData\<close> produce for a placement \<open>(offsetX, offsetY, drawWidth, drawHeight)\<close>.
  The resampling is the browser's and is taken as given. A decoded image has a positive
  natural height; for a height of zero the quotient \<open>img.width / img.height\<close> of the
  source is \<open>Infinity\<close> or \<open>NaN\<close>, which a real number does not represent.
\<close>

record image =
  img_width :: real
  img_height :: real
  readback :: "real \<Rightarrow> real \<Rightarrow> real \<Rightarrow> real \<Rightarrow> 8 word list"

text \<open>
  \<open>view\<close> holds the variables of the component that \<open>processChunk\<close> reads. \<open>painter\<close> is
  the state of the component (lines 7 to 16). \<open>closure\<close> is the scope of one call of
  \<open>processImage\<close>: its parameters, the \<open>scaleFactor\<close> it captured and its locals.
\<close>

record view =
  width :: real
  height :: real
  inversive :: bool
  spacing :: nat
  alpha :: int
  scaleFactor :: real

record painter = view +
  imageFile :: "image option"
  savePath :: "string option"

record closure = view +
  filePath :: "string option"
  drawWidth :: real
  drawHeight :: real
  offsetX :: real
  offsetY :: real
  data :: "8 word list"

text \<open>
  An accepted grid sample, with the variables of the accepting branch: the loop variables
  \<open>x\<close> and \<open>y\<close>, the centre of the dot, the rounded export coordinates and the text pushed
  onto \<open>positions\<close>.
\<close>

record point =
  grid_x :: nat
  grid_y :: nat
  canvasX :: real
  canvasY :: real
  scaledX :: real
  scaledY :: real
  line :: string

text \<open>The messages to the main process: \<open>save\<close>, \<open>clear-file\<close>, \<open>save-chunk\<close>.\<close>

datatype message = Save | Clear_file | Save_chunk string string

text \<open>
  What lies outside the React state: the dots on the canvas since it was last cleared
  (their centres), the messages sent, the callbacks waiting for an animation frame (the
  scope of their run and the band to process), the images waiting for \<open>onload\<close> (with the
  state and file path their \<open>updateCanvas\<close> saw), and the number of calls of
  \<open>Math.random\<close> so far. \<open>sampled\<close> is instrumentation: the grid positions \<open>(y, x)\<close> at
  which the body of the inner loop ran. There is one canvas: the canvas that \<open>Clear\<close>
  unmounts and the one the next upload mounts are not told apart.
\<close>

record world =
  arcs :: "(real \<times> real) list"
  sent :: "message list"
  frames :: "(closure \<times> nat) list"
  loads :: "(image \<times> painter \<times> string option) list"
  randoms :: nat
  sampled :: "(nat \<times> nat) list"

text \<open>The \<open>n\<close>-th result of \<open>Math.random()\<close>, a number in \<open>[0, 1)\<close>.\<close>

type_synonym random_source = "nat \<Rightarrow> real"



section \<open>App.tsx: processImage\<close>

definition chunkSize :: nat where
  "chunkSize = 100"

definition totalChunks :: "closure \<Rightarrow> int" where
  "totalChunks c = Math_ceil (drawHeight c / real chunkSize)"

text \<open>
  \<open>data[i]\<close> on a \<open>Uint8ClampedArray\<close>: the byte when \<open>i\<close> is an integer index within the
  array, \<open>undefined\<close> otherwise. \<open>drawWidth\<close> need not be an integer, so neither need \<open>i\<close>.
\<close>

definition data_at :: "8 word list \<Rightarrow> real \<Rightarrow> int option" where
  "data_at d i =
     (if i = of_int \<lfloor>i\<rfloor> \<and> 0 \<le> i \<and> i < real (length d) then Some (uint (d ! nat \<lfloor>i\<rfloor>))
      else None)"

text \<open>
  Lines 131 to 137. With an \<open>undefined\<close> channel the luminance is \<open>NaN\<close>, the comparison
  with the threshold is false and the classifier returns 0.
\<close>

definition grayscale_at :: "closure \<Rightarrow> nat \<Rightarrow> nat \<Rightarrow> int" where
  "grayscale_at c y x =
     (let i = (real y * drawWidth c + real x) * 4
      in case (data_at (data c) i, data_at (data c) (i + 1), data_at (data c) (i + 2)) of
           (Some r, Some g, Some b) \<Rightarrow> getGrayscaleValue (alpha c) r g b
         | _ \<Rightarrow> 0)"

text \<open>The condition of lines 138 to 141.\<close>

definition accepted :: "closure \<Rightarrow> nat \<Rightarrow> nat \<Rightarrow> bool" where
  "accepted c y x =
     (let grayscale = grayscale_at c y x
      in (grayscale > 240 \<and> \<not> inversive c) \<or> (grayscale \<le> 240 \<and> inversive c))"

text \<open>
  Lines 142 to 162, for the sample at \<open>(y, x)\<close> when \<open>k\<close> random numbers have been drawn:
  the angle takes the next one, the radius the one after.
\<close>

definition stipple :: "random_source \<Rightarrow> closure \<Rightarrow> nat \<Rightarrow> nat \<Rightarrow> nat \<Rightarrow> point" where
  "stipple rnd c y x k =
     (let radius = real (spacing c) / 2;
          randomAngle = rnd k * pi * 2;
          randomRadius = rnd (k + 1) * radius;
          cX = offsetX c + real x + randomRadius * cos randomAngle;
          cY = offsetY c + real y + randomRadius * sin randomAngle;
          sX = real_of_int (Math_round (cX / scaleFactor c * 100)) / 100;
          sY = real_of_int (Math_round ((height c - cY) / scaleFactor c * 100)) / 100
      in \<lparr>grid_x = x, grid_y = y, canvasX = cX, canvasY = cY, scaledX = sX, scaledY = sY,
          line = comma_fixed2 sX @ '' '' @ comma_fixed2 sY\<rparr>)"

text \<open>The body of the inner loop, on \<open>positions\<close> and the world.\<close>

definition sample ::
  "random_source \<Rightarrow> closure \<Rightarrow> nat \<Rightarrow> nat \<Rightarrow> point list \<times> world \<Rightarrow> point list \<times> world" where
  "sample rnd c y x s =
     (let (positions, w) = s;
          w' = w\<lparr>sampled := sampled w @ [(y, x)]\<rparr>
      in if accepted c y x
         then let p = stipple rnd c y x (randoms w)
              in (positions @ [p],
                  w'\<lparr>arcs := arcs w @ [(canvasX p, canvasY p)], randoms := randoms w + 2\<rparr>)
         else (positions, w'))"

text \<open>
  \<open>for (let x = 0; x < drawWidth; x += spacing)\<close> and
  \<open>for (let y = startY; y < endY; y += spacing)\<close>. With a spacing of 0 they do not end.
\<close>

partial_function (option) row_loop ::
  "random_source \<Rightarrow> closure \<Rightarrow> nat \<Rightarrow> nat \<Rightarrow> point list \<times> world \<Rightarrow> (point list \<times> world) option" where
  "row_loop rnd c y x s =
     (if real x < drawWidth c then row_loop rnd c y (x + spacing c) (sample rnd c y x s)
      else Some s)"

partial_function (option) band_loop ::
  "random_source \<Rightarrow> closure \<Rightarrow> real \<Rightarrow> nat \<Rightarrow> point list \<times> world \<Rightarrow> (point list \<times> world) option" where
  "band_loop rnd c endY y s =
     (if real y < endY
      then Option.bind (row_loop rnd c y 0 s) (band_loop rnd c endY (y + spacing c))
      else Some s)"

text \<open>
  \<open>if (filePath)\<close>: a path that is neither \<open>null\<close> nor empty.
\<close>

definition truthy :: "string option \<Rightarrow> bool" where
  "truthy p = (case p of None \<Rightarrow> False | Some s \<Rightarrow> s \<noteq> [])"

definition chunk_text :: "point list \<Rightarrow> string" where
  "chunk_text positions = join newline (map line positions) @ newline"

text \<open>Lines 167 to 172.\<close>

definition save_chunk :: "closure \<Rightarrow> point list \<Rightarrow> world \<Rightarrow> world" where
  "save_chunk c positions w =
     (if truthy (filePath c)
      then w\<lparr>sent := sent w @ [Save_chunk (the (filePath c)) (chunk_text positions)]\<rparr>
      else w)"

text \<open>Lines 174 to 176.\<close>

definition request_next :: "closure \<Rightarrow> nat \<Rightarrow> world \<Rightarrow> world" where
  "request_next c chunkIndex w =
     (if int chunkIndex < totalChunks c - 1 then w\<lparr>frames := frames w @ [(c, chunkIndex + 1)]\<rparr>
      else w)"

definition processChunk :: "random_source \<Rightarrow> closure \<Rightarrow> nat \<Rightarrow> world \<Rightarrow> world option" where
  "processChunk rnd c chunkIndex w =
     (let startY = chunkIndex * chunkSize;
          endY = min (real (startY + chunkSize)) (drawHeight c)
      in case band_loop rnd c endY startY ([], w) of
           None \<Rightarrow> None
         | Some (positions, w1) \<Rightarrow> Some (request_next c chunkIndex (save_chunk c positions w1)))"

text \<open>
  Lines 93 to 119, called from the render whose state is \<open>st\<close>: the scope that
  \<open>processChunk\<close> closes over. The callback is memoised with an empty dependency list
  (line 181), so the \<open>scaleFactor\<close> it reads is the one of the first render, the initial 1
  of line 16. Then the canvas is cleared and the first band is processed (lines 118 and
  179).
\<close>

definition fit_closure :: "image \<Rightarrow> painter \<Rightarrow> string option \<Rightarrow> closure" where
  "fit_closure img st path =
     (let aspectRatio = img_width img / img_height img;
          dW = (if aspectRatio > 1 then width st else height st * aspectRatio);
          dH = (if aspectRatio > 1 then width st / aspectRatio else height st);
          oX = (width st - dW) / 2;
          oY = (height st - dH) / 2
      in \<lparr>width = width st, height = height st, inversive = inversive st,
          spacing = spacing st, alpha = alpha st, scaleFactor = 1,
          filePath = path, drawWidth = dW, drawHeight = dH, offsetX = oX, offsetY = oY,
          data = readback img oX oY dW dH\<rparr>)"

definition processImage ::
  "random_source \<Rightarrow> image \<Rightarrow> painter \<Rightarrow> string option \<Rightarrow> world \<Rightarrow> world option" where
  "processImage rnd img st path w = processChunk rnd (fit_closure img st path) 0 (w\<lparr>arcs := []\<rparr>)"


section \<open>App.tsx: the component\<close>

text \<open>
  \<open>updateCanvas\<close> (lines 54 to 80). The canvas is mounted exactly while an image is
  loaded (line 213); assigning its size clears it; the image loads asynchronously.
\<close>

definition updateCanvas :: "painter \<Rightarrow> string option \<Rightarrow> world \<Rightarrow> world" where
  "updateCanvas st path w =
     (case imageFile st of
        None \<Rightarrow> w
      | Some img \<Rightarrow> w\<lparr>arcs := [], loads := loads w @ [(img, st, path)]\<rparr>)"

text \<open>The dependency list of the effect of lines 50 to 52.\<close>

definition canvas_deps ::
  "painter \<Rightarrow> image option \<times> bool \<times> nat \<times> int \<times> real \<times> real" where
  "canvas_deps st = (imageFile st, inversive st, spacing st, alpha st, width st, height st)"

text \<open>The effect of lines 41 to 48.\<close>

definition save_effect :: "painter \<Rightarrow> world \<Rightarrow> painter \<times> world" where
  "save_effect st w =
     (let w1 = w\<lparr>sent := sent w @ [Clear_file]\<rparr>
      in if truthy (savePath st) then (st\<lparr>savePath := None\<rparr>, updateCanvas st (savePath st) w1)
         else (st, w1))"

text \<open>
  A render after the state went from \<open>old\<close> to \<open>new\<close>: the effects whose dependencies
  changed run in the order of the source. When the save effect resets \<open>savePath\<close>, the
  render that follows runs it once more, and it sends \<open>clear-file\<close> again.
\<close>

definition commit :: "painter \<Rightarrow> painter \<Rightarrow> world \<Rightarrow> painter \<times> world" where
  "commit old new w =
     (let (st1, w1) = (if savePath new \<noteq> savePath old then save_effect new w else (new, w));
          w2 = (if canvas_deps new \<noteq> canvas_deps old then updateCanvas new None w1 else w1)
      in if savePath st1 \<noteq> savePath new then (st1, w2\<lparr>sent := sent w2 @ [Clear_file]\<rparr>)
         else (st1, w2))"

text \<open>\<open>handleClear\<close> (lines 196 to 205).\<close>

definition handleClear :: "painter \<Rightarrow> world \<Rightarrow> painter \<times> world" where
  "handleClear st w =
     (st\<lparr>imageFile := None\<rparr>, if imageFile st = None then w else w\<lparr>arcs := []\<rparr>)"

text \<open>\<open>handleResize\<close> (lines 19 to 27), for a window of inner size \<open>iw\<close> by \<open>ih\<close>.\<close>

definition handleResize :: "nat \<Rightarrow> nat \<Rightarrow> painter \<Rightarrow> world \<Rightarrow> painter \<times> world" where
  "handleResize iw ih st w =
     (if imageFile st = None then (st, w)
      else (st\<lparr>width := real iw, height := real_of_int \<lfloor>real ih * 8 / 10\<rfloor>\<rparr>, w\<lparr>arcs := []\<rparr>))"

text \<open>\<open>handleSave\<close> (lines 184 to 188).\<close>

definition handleSave :: "painter \<Rightarrow> world \<Rightarrow> painter \<times> world" where
  "handleSave st w = (st, if imageFile st = None then w else w\<lparr>sent := sent w @ [Save]\<rparr>)"

text \<open>
  What can happen to the component: the user's actions, the \<open>start-saving\<close> message of the
  main process, the \<open>onload\<close> of the oldest pending image, and an animation frame, which
  runs the oldest pending callback.
\<close>

datatype event =
    Upload image
  | SetSpacing nat
  | SetAlpha int
  | SetScaleFactor real
  | Invert
  | Clear
  | ClickSave
  | Resize nat nat
  | StartSaving string
  | ImageLoaded
  | AnimationFrame

definition image_loaded :: "random_source \<Rightarrow> world \<Rightarrow> world option" where
  "image_loaded rnd w =
     (case loads w of
        [] \<Rightarrow> Some w
      | (img, st, path) # rest \<Rightarrow> processImage rnd img st path (w\<lparr>loads := rest\<rparr>))"

definition animation_frame :: "random_source \<Rightarrow> world \<Rightarrow> world option" where
  "animation_frame rnd w =
     (case frames w of
        [] \<Rightarrow> Some w
      | (c, chunkIndex) # rest \<Rightarrow> processChunk rnd c chunkIndex (w\<lparr>frames := rest\<rparr>))"

text \<open>The handler of an event, on the state and the world.\<close>

fun handler :: "event \<Rightarrow> painter \<Rightarrow> world \<Rightarrow> painter \<times> world" where
  "handler (Upload f) st w = (st\<lparr>imageFile := Some f\<rparr>, w)"
| "handler (SetSpacing v) st w = (st\<lparr>spacing := v\<rparr>, w)"
| "handler (SetAlpha v) st w = (st\<lparr>alpha := v\<rparr>, w)"
| "handler (SetScaleFactor v) st w = (st\<lparr>scaleFactor := v\<rparr>, w)"
| "handler Invert st w = (st\<lparr>inversive := \<not> inversive st\<rparr>, w)"
| "handler Clear st w = handleClear st w"
| "handler ClickSave st w = handleSave st w"
| "handler (Resize iw ih) st w = handleResize iw ih st w"
| "handler (StartSaving p) st w = (st\<lparr>savePath := Some p\<rparr>, w)"
| "handler ImageLoaded st w = (st, w)"
| "handler AnimationFrame st w = (st, w)"

text \<open>
  One event: the handler, the render with its effects, and for the two events of the host
  the pending callback. The result is \<open>None\<close> when a loop of the callback does not end.
\<close>

definition dispatch :: "random_source \<Rightarrow> event \<Rightarrow> painter \<times> world \<Rightarrow> (painter \<times> world) option" where
  "dispatch rnd ev s =
     (let (st, w) = s
      in case ev of
           ImageLoaded \<Rightarrow> map_option (Pair st) (image_loaded rnd w)
         | AnimationFrame \<Rightarrow> map_option (Pair st) (animation_frame rnd w)
         | _ \<Rightarrow> (let (st', w') = handler ev st w in Some (commit st st' w')))"

text \<open>Serving animation frames until no callback is pending.\<close>

partial_function (option) drain :: "random_source \<Rightarrow> world \<Rightarrow> world option" where
  "drain rnd w =
     (if frames w = [] then Some w else Option.bind (animation_frame rnd w) (drain rnd))"


section \<open>The grid that the loops walk\<close>

text \<open>
  The values of a loop variable that starts at \<open>a\<close>, steps by \<open>sp\<close> and stays below \<open>b\<close>.
\<close>

function lattice :: "nat \<Rightarrow> nat \<Rightarrow> real \<Rightarrow> nat list" where
  "lattice sp a b = (if 0 < sp \<and> real a < b then a # lattice sp (a + sp) b else [])"
  by pat_completeness auto
termination
  by (relation "measure (\<lambda>(sp, a, b). nat \<lceil>b\<rceil> - a)") (auto, linarith)

declare lattice.simps [simp del]

definition band_rows :: "closure \<Rightarrow> nat \<Rightarrow> nat list" where
  "band_rows c chunkIndex =
     lattice (spacing c) (chunkIndex * chunkSize)
       (min (real (chunkIndex * chunkSize + chunkSize)) (drawHeight c))"

definition columns :: "closure \<Rightarrow> nat list" where
  "columns c = lattice (spacing c) 0 (drawWidth c)"

definition band_grid :: "closure \<Rightarrow> nat \<Rightarrow> (nat \<times> nat) list" where
  "band_grid c chunkIndex = List.product (band_rows c chunkIndex) (columns c)"

text \<open>The dots of a list of grid positions, each taking the next two random numbers.\<close>

fun stipples :: "random_source \<Rightarrow> closure \<Rightarrow> nat \<Rightarrow> (nat \<times> nat) list \<Rightarrow> point list" where
  "stipples rnd c k [] = []"
| "stipples rnd c k ((y, x) # g) = stipple rnd c y x k # stipples rnd c (k + 2) g"

definition band_points :: "random_source \<Rightarrow> closure \<Rightarrow> nat \<Rightarrow> nat \<Rightarrow> point list" where
  "band_points rnd c chunkIndex k =
     stipples rnd c k (filter (\<lambda>(y, x). accepted c y x) (band_grid c chunkIndex))"

definition centre :: "point \<Rightarrow> real \<times> real" where
  "centre p = (canvasX p, canvasY p)"

definition grid :: "point \<Rightarrow> nat \<times> nat" where
  "grid p = (grid_y p, grid_x p)"

text \<open>
  One band without its scheduling: the dots of the accepted positions of the band are
  drawn, and the chunk is sent when a file path is set.
\<close>

definition band_step :: "random_source \<Rightarrow> closure \<Rightarrow> nat \<Rightarrow> world \<Rightarrow> world" where
  "band_step rnd c chunkIndex w =
     (let pts = band_points rnd c chunkIndex (randoms w)
      in save_chunk c pts
           (w\<lparr>arcs := arcs w @ map centre pts,
               randoms := randoms w + 2 * length pts,
               sampled := sampled w @ band_grid c chunkIndex\<rparr>))"

text \<open>
  A run that no other work interleaves, from band \<open>chunkIndex\<close> on: its effect on the world,
  and the points of its bands.
\<close>

function run_from :: "random_source \<Rightarrow> closure \<Rightarrow> nat \<Rightarrow> world \<Rightarrow> world" where
  "run_from rnd c chunkIndex w =
     (let w' = band_step rnd c chunkIndex w
      in if int chunkIndex < totalChunks c - 1 then run_from rnd c (chunkIndex + 1) w' else w')"
  by pat_completeness auto
termination
  by (relation "measure (\<lambda>(rnd, c, chunkIndex, w). nat (totalChunks c) - chunkIndex)") auto

declare run_from.simps [simp del]







text \<open>Reading a decimal numeral back, to state what \<open>digits\<close> writes.\<close>

definition digit_value :: "char \<Rightarrow> nat" where
  "digit_value ch = of_char ch - 48"

definition decimal_value :: "string \<Rightarrow> nat" where
  "decimal_value s = foldl (\<lambda>a ch. 10 * a + digit_value ch) 0 s"

definition is_digit :: "char \<Rightarrow> bool" where
  "is_digit ch = (ch \<in> set ''0123456789'')"

text \<open>
  \<open>k\<close> hundredths written with exactly two decimals and a comma: a sign, the digits of the
  integer part, the comma, two digits.
\<close>

definition two_decimals :: "int \<Rightarrow> string" where
  "two_decimals k =
     (if k < 0 then ''-'' else []) @ digits (nat \<bar>k\<bar> div 100) @ '','' @
       [digit_char (nat \<bar>k\<bar> mod 100 div 10), digit_char (nat \<bar>k\<bar> mod 10)]"

text \<open>A sequence of events, stopping when a callback does not return.\<close>

fun run_events ::
  "random_source \<Rightarrow> event list \<Rightarrow> painter \<times> world \<Rightarrow> (painter \<times> world) option" where
  "run_events rnd [] s = Some s"
| "run_events rnd (ev # evs) s = Option.bind (dispatch rnd ev s) (run_events rnd evs)"

text \<open>
  With a spacing of zero, \<open>x += spacing\<close> leaves \<open>x\<close> where it is: the inner loop is
  stuck at a column inside the drawn rectangle.
\<close>

definition stuck :: "closure \<Rightarrow> nat \<Rightarrow> bool" where
  "stuck c x = (spacing c = 0 \<and> real x < drawWidth c)"

section \<open>Concrete inputs\<close>

text \<open>
  An image of one colour, \<open>w\<close> by \<open>h\<close> pixels, shown in a viewport of its own size, so
  that the canvas reads back its pixels as they are; a state of the component showing it;
  a world in which nothing has happened; a random source without jitter.
\<close>

definition solid :: "nat \<Rightarrow> 8 word list \<Rightarrow> 8 word list" where
  "solid n px = concat (replicate n px)"

definition black :: "8 word list" where
  "black = [0, 0, 0, 255]"

definition white :: "8 word list" where
  "white = [255, 255, 255, 255]"

definition solid_image :: "nat \<Rightarrow> nat \<Rightarrow> 8 word list \<Rightarrow> image" where
  "solid_image w h px =
     \<lparr>img_width = real w, img_height = real h, readback = (\<lambda>oX oY dW dH. solid (w * h) px)\<rparr>"

definition showing :: "nat \<Rightarrow> nat \<Rightarrow> 8 word list \<Rightarrow> nat \<Rightarrow> painter" where
  "showing w h px sp =
     \<lparr>width = real w, height = real h, inversive = False, spacing = sp, alpha = 128,
      scaleFactor = 1, imageFile = Some (solid_image w h px), savePath = None\<rparr>"

definition blank :: world where
  "blank = \<lparr>arcs = [], sent = [], frames = [], loads = [], randoms = 0, sampled = []\<rparr>"

definition no_jitter :: random_source where
  "no_jitter = (\<lambda>n. 0)"


text \<open>The scale factor of the state and the messages sent.\<close>

definition exported :: "painter \<times> world \<Rightarrow> real \<times> message list" where
  "exported s = (scaleFactor (fst s), sent (snd s))"


section \<open>Properties of the double arithmetic\<close>

lemma round_half_even_err: "\<bar>of_int (round_half_even m) - m\<bar> \<le> 1 / 2"
proof -
  define f where "f = \<lfloor>m\<rfloor>"
  have f: "of_int f \<le> m" "m < of_int f + 1"
    unfolding f_def by linarith+
  show ?thesis
    unfolding round_half_even_def Let_def f_def[symmetric] using f by (auto simp: abs_if)
qed

lemma ilog2_le:
  assumes "0 < q"
  shows "2 powi ilog2 q \<le> q"
proof -
  obtain n d where nd: "quotient_of q = (n, d)" by (cases "quotient_of q")
  have d: "0 < d" using nd quotient_of_denom_pos by blast
  have q: "q = of_int n / of_int d" using nd quotient_of_div by blast
  have n: "0 < n" using assms d q by (simp add: zero_less_divide_iff)
  define t where "t = bitlen n - bitlen d"
  have b1: "(2::int) ^ nat (bitlen n - 1) \<le> n" using bitlen_bounds[OF n] by simp
  have b2: "d < 2 ^ nat (bitlen d)" using bitlen_bounds[OF d] by simp
  have bn: "1 \<le> bitlen n" using n bitlen_eq_zero_iff[of n] bitlen_nonneg[of n] by linarith
  have bd: "0 \<le> bitlen d" by (rule bitlen_nonneg)
  have "(2::rat) powi (t - 1) = 2 powi (bitlen n - 1) / 2 powi (bitlen d)"
  proof -
    have "t - 1 = (bitlen n - 1) - bitlen d" by (simp add: t_def)
    then have "(2::rat) powi (t - 1) = 2 powi ((bitlen n - 1) - bitlen d)" by (rule arg_cong)
    also have "\<dots> = 2 powi (bitlen n - 1) / 2 powi (bitlen d)"
      by (rule power_int_diff) simp
    finally show ?thesis .
  qed
  also have "\<dots> = 2 ^ nat (bitlen n - 1) / 2 ^ nat (bitlen d)"
    using bn bd by (simp add: power_int_def)
  also have "\<dots> \<le> of_int n / of_int d"
  proof -
    have "(2::rat) ^ nat (bitlen n - 1) \<le> of_int n"
      using b1 by (metis of_int_le_iff of_int_numeral of_int_power)
    moreover have "(of_int d :: rat) \<le> 2 ^ nat (bitlen d)"
      using b2 by (metis less_imp_le of_int_le_iff of_int_numeral of_int_power)
    moreover have "(0::rat) < of_int d" using d by simp
    moreover have "(0::rat) \<le> 2 ^ nat (bitlen n - 1)" by simp
    ultimately show ?thesis using n by (intro frac_le) auto
  qed
  finally have low: "(2::rat) powi (t - 1) \<le> q" using q by simp
  show ?thesis
    unfolding ilog2_def nd Let_def using low by (simp add: t_def)
qed

lemma fl_err: "\<bar>fl q - q\<bar> \<le> \<bar>q\<bar> / 2 ^ 53"
proof (cases "q = 0")
  case True
  then show ?thesis by (simp add: fl_def)
next
  case False
  define a where "a = \<bar>q\<bar>"
  define e where "e = ilog2 a - 52"
  define m where "m = a / 2 powi e"
  define k where "k = round_half_even m"
  have a: "0 < a" using False by (simp add: a_def)
  have p: "(0::rat) < 2 powi e" by simp
  have fl: "fl q = sgn q * (of_int k * 2 powi e)"
    using False by (simp add: fl_def Let_def a_def e_def m_def k_def)
  have q: "q = sgn q * a" by (simp add: a_def sgn_mult_abs)
  have "fl q - q = sgn q * (of_int k * 2 powi e - a)"
    by (subst (2) q, subst fl) (simp add: algebra_simps)
  then have "\<bar>fl q - q\<bar> = \<bar>of_int k * 2 powi e - a\<bar>"
    using False by (simp add: abs_mult abs_sgn_eq)
  also have "of_int k * 2 powi e - a = (of_int k - m) * 2 powi e"
    using p by (simp add: m_def algebra_simps)
  also have "\<bar>(of_int k - m) * 2 powi e\<bar> = \<bar>of_int k - m\<bar> * 2 powi e"
    by (simp add: abs_mult)
  also have "\<dots> \<le> (1 / 2) * 2 powi e"
    using round_half_even_err[of m] p unfolding k_def by (intro mult_right_mono) auto
  also have "2 powi e = (2::rat) powi ilog2 a / 2 ^ 52"
    by (simp add: e_def power_int_diff)
  also have "(1 / 2) * ((2::rat) powi ilog2 a / 2 ^ 52) \<le> (1 / 2) * (a / 2 ^ 52)"
    using ilog2_le[OF a] by (intro mult_left_mono divide_right_mono) auto
  also have "\<dots> = a / 2 ^ 53" by simp
  finally show ?thesis by (simp add: a_def)
qed

lemma fl_err_bound:
  assumes "\<bar>q\<bar> \<le> 1024"
  shows "\<bar>fl q - q\<bar> \<le> 1 / 1000000000000"
proof -
  have "\<bar>fl q - q\<bar> \<le> \<bar>q\<bar> / 2 ^ 53" by (rule fl_err)
  also have "\<dots> \<le> 1024 / 2 ^ 53" using assms by (intro divide_right_mono) auto
  also have "\<dots> \<le> 1 / 1000000000000" by simp
  finally show ?thesis .
qed

lemma js_mul_lit_err:
  assumes c: "0 \<le> c" "c \<le> 1" and x: "0 \<le> x" "x \<le> 255"
  shows "\<bar>js_mul (js_lit c) x - c * x\<bar> \<le> 1 / 1000000000"
proof -
  have d: "\<bar>fl c - c\<bar> \<le> 1 / 1000000000000"
    using c by (intro fl_err_bound) auto
  have "\<bar>fl c * x - c * x\<bar> = \<bar>fl c - c\<bar> * x"
    using x by (simp add: abs_mult left_diff_distrib[symmetric])
  also have "\<dots> \<le> (1 / 1000000000000) * 255"
    using d x by (intro mult_mono) auto
  finally have e1: "\<bar>fl c * x - c * x\<bar> \<le> 255 / 1000000000000" by simp
  have cx: "0 \<le> c * x" "c * x \<le> 255"
    using c x mult_mono[of c 1 x 255] by auto
  have m: "\<bar>fl c * x\<bar> \<le> 1024" using e1 cx by linarith
  have e2: "\<bar>fl (fl c * x) - fl c * x\<bar> \<le> 1 / 1000000000000"
    using m by (rule fl_err_bound)
  show ?thesis unfolding js_mul_def js_lit_def using e1 e2 by linarith
qed

lemma js_add_err: 
  assumes "\<bar>x + y\<bar> \<le> 1024"
  shows "\<bar>js_add x y - (x + y)\<bar> \<le> 1 / 1000000000"
  using fl_err_bound[OF assms] unfolding js_add_def by linarith

lemma luminance_err:
  assumes "0 \<le> r" "r \<le> 255" "0 \<le> g" "g \<le> 255" "0 \<le> b" "b \<le> (255::int)"
  shows "\<bar>luminance r g b - of_int (299 * r + 587 * g + 114 * b) / 1000\<bar> < 1 / 1000000"
proof -
  define p1 where "p1 = js_mul (js_lit (299 / 1000)) (of_int r)"
  define p2 where "p2 = js_mul (js_lit (587 / 1000)) (of_int g)"
  define p3 where "p3 = js_mul (js_lit (114 / 1000)) (of_int b)"
  define R where "R = (of_int r :: rat)"
  define G where "G = (of_int g :: rat)"
  define B where "B = (of_int b :: rat)"
  have rgb: "0 \<le> R" "R \<le> 255" "0 \<le> G" "G \<le> 255" "0 \<le> B" "B \<le> 255"
    using assms by (simp_all add: R_def G_def B_def)
  have e1: "\<bar>p1 - 299 / 1000 * R\<bar> \<le> 1 / 1000000000"
    unfolding p1_def R_def[symmetric] using rgb by (intro js_mul_lit_err) auto
  have e2: "\<bar>p2 - 587 / 1000 * G\<bar> \<le> 1 / 1000000000"
    unfolding p2_def G_def[symmetric] using rgb by (intro js_mul_lit_err) auto
  have e3: "\<bar>p3 - 114 / 1000 * B\<bar> \<le> 1 / 1000000000"
    unfolding p3_def B_def[symmetric] using rgb by (intro js_mul_lit_err) auto
  have s1: "\<bar>p1 + p2\<bar> \<le> 1024" using e1 e2 rgb by linarith
  have e4: "\<bar>js_add p1 p2 - (p1 + p2)\<bar> \<le> 1 / 1000000000"
    using s1 by (rule js_add_err)
  have s2: "\<bar>js_add p1 p2 + p3\<bar> \<le> 1024" using e1 e2 e3 e4 rgb by linarith
  have e5: "\<bar>js_add (js_add p1 p2) p3 - (js_add p1 p2 + p3)\<bar> \<le> 1 / 1000000000"
    using s2 by (rule js_add_err)
  have "of_int (299 * r + 587 * g + 114 * b) / 1000 = 299 / 1000 * R + 587 / 1000 * G + 114 / 1000 * B"
    by (simp add: R_def G_def B_def)
  then show ?thesis
    unfolding luminance_def p1_def[symmetric] p2_def[symmetric] p3_def[symmetric]
    using e1 e2 e3 e4 e5 by linarith
qed

lemma getGrayscaleValue_exact:
  assumes "0 \<le> r" "r \<le> 255" "0 \<le> g" "g \<le> 255" "0 \<le> b" "b \<le> (255::int)"
    and ne: "299 * r + 587 * g + 114 * b \<noteq> 1000 * alpla"
  shows "getGrayscaleValue alpla r g b = 255 \<longleftrightarrow> 1000 * alpla < 299 * r + 587 * g + 114 * b"
proof -
  define s where "s = 299 * r + 587 * g + 114 * b"
  define L where "L = luminance r g b"
  have e: "\<bar>L - of_int s / 1000\<bar> < 1 / 1000000"
    unfolding L_def s_def using assms(1-6) by (rule luminance_err)
  have g: "getGrayscaleValue alpla r g b = 255 \<longleftrightarrow> of_int alpla < L"
    by (simp add: getGrayscaleValue_def L_def Let_def)
  show ?thesis
  proof (cases "1000 * alpla < s")
    case True
    then have "1000 * alpla + 1 \<le> s" by simp
    then have "(of_int (1000 * alpla + 1) :: rat) \<le> of_int s" by (simp only: of_int_le_iff)
    then have "(of_int alpla :: rat) + 1 / 1000 \<le> of_int s / 1000" by simp
    with e have "of_int alpla < L" by linarith
    with True g show ?thesis by (simp add: s_def)
  next
    case False
    with ne have "s + 1 \<le> 1000 * alpla" by (simp add: s_def)
    then have "(of_int (s + 1) :: rat) \<le> of_int (1000 * alpla)" by (simp only: of_int_le_iff)
    then have "of_int s / 1000 + 1 / 1000 \<le> (of_int alpla :: rat)" by simp
    with e have "\<not> of_int alpla < L" by linarith
    with False g show ?thesis by (simp add: s_def)
  qed
qed



section \<open>The grayscale classifier\<close>

text \<open>
  C3 (as amended). For all integers \<open>r\<close>, \<open>g\<close>, \<open>b\<close> and every threshold the classifier
  returns 0 or 255, and it returns 255 exactly when the luminance, computed in double
  arithmetic, is strictly greater than the threshold. For channels in \<open>[0, 255]\<close> this is
  the exact comparison of \<open>0.299 r + 0.587 g + 0.114 b\<close> with the threshold whenever the
  two differ.
\<close>

theorem getGrayscaleValue_threshold:
  "getGrayscaleValue alpla r g b \<in> {0, 255} \<and>
   (getGrayscaleValue alpla r g b = 255 \<longleftrightarrow> of_int alpla < luminance r g b) \<and>
   (0 \<le> r \<and> r \<le> 255 \<and> 0 \<le> g \<and> g \<le> 255 \<and> 0 \<le> b \<and> b \<le> 255 \<and>
    299 * r + 587 * g + 114 * b \<noteq> 1000 * alpla \<longrightarrow>
      (getGrayscaleValue alpla r g b = 255 \<longleftrightarrow> 1000 * alpla < 299 * r + 587 * g + 114 * b))"
proof (intro conjI impI)
  show "getGrayscaleValue alpla r g b \<in> {0, 255}"
    by (simp add: getGrayscaleValue_def Let_def)
  show "getGrayscaleValue alpla r g b = 255 \<longleftrightarrow> of_int alpla < luminance r g b"
    by (simp add: getGrayscaleValue_def Let_def)
next
  assume "0 \<le> r \<and> r \<le> 255 \<and> 0 \<le> g \<and> g \<le> 255 \<and> 0 \<le> b \<and> b \<le> 255 \<and>
    299 * r + 587 * g + 114 * b \<noteq> 1000 * alpla"
  then show "getGrayscaleValue alpla r g b = 255 \<longleftrightarrow> 1000 * alpla < 299 * r + 587 * g + 114 * b"
    by (intro getGrayscaleValue_exact) auto
qed

theorem getGrayscaleValue_threshold_witness:
  "getGrayscaleValue 128 200 200 200 = 255 \<and> getGrayscaleValue 128 10 20 30 = 0"
  using getGrayscaleValue_threshold [of 128 200 200 200]
    getGrayscaleValue_threshold [of 128 10 20 30]
  by auto

text \<open>
  Where the exact luminance equals the threshold the rounded sum can lie above it: for
  the pixel \<open>(1, 113, 205)\<close> the exact luminance is 90, the sum of the three rounded
  products is \<open>90 + 1 / 2 ^ 46\<close>, and with the threshold 90 the classifier returns 255.
\<close>

lemma luminance_1_113_205: "luminance 1 113 205 = 6333186975989761 / 70368744177664"
  by code_simp

theorem getGrayscaleValue_boundary_counterexample:
  "getGrayscaleValue 90 1 113 205 = 255 \<and>
   \<not> ((90::rat) < 299 / 1000 * 1 + 587 / 1000 * 113 + 114 / 1000 * 205)"
  by (simp add: getGrayscaleValue_def luminance_1_113_205)

section \<open>The loops of a band\<close>

lemma lattice_step: "0 < sp \<Longrightarrow> real a < b \<Longrightarrow> lattice sp a b = a # lattice sp (a + sp) b"
  by (subst lattice.simps) simp

lemma lattice_stop: "\<not> real a < b \<Longrightarrow> lattice sp a b = []"
  by (subst lattice.simps) simp

lemma lattice_zero: "lattice 0 a b = []"
  by (subst lattice.simps) simp

lemma row_loop_lattice:
  assumes "0 < spacing c"
  shows "row_loop rnd c y x s =
         Some (foldl (\<lambda>s x. sample rnd c y x s) s (lattice (spacing c) x (drawWidth c)))"
  using assms
proof (induction "spacing c" x "drawWidth c" arbitrary: s rule: lattice.induct)
  case (1 a)
  show ?case
  proof (cases "real a < drawWidth c")
    case True
    with 1 show ?thesis
      by (subst row_loop.simps) (simp add: lattice_step)
  next
    case False
    then show ?thesis
      by (subst row_loop.simps) (simp add: lattice_stop)
  qed
qed

lemma band_loop_lattice:
  assumes "0 < spacing c"
  shows "band_loop rnd c endY y s =
         Some (foldl (\<lambda>s y. foldl (\<lambda>s x. sample rnd c y x s) s (columns c)) s
                 (lattice (spacing c) y endY))"
  using assms
proof (induction "spacing c" y endY arbitrary: s rule: lattice.induct)
  case (1 a b)
  show ?case
  proof (cases "real a < b")
    case True
    with 1 show ?thesis
      by (subst band_loop.simps) (simp add: lattice_step row_loop_lattice columns_def)
  next
    case False
    then show ?thesis
      by (subst band_loop.simps) (simp add: lattice_stop)
  qed
qed

lemma foldl_product:
  "foldl (\<lambda>s y. foldl (\<lambda>s x. F y x s) s xs) s ys =
   foldl (\<lambda>s (y, x). F y x s) s (List.product ys xs)"
  by (induction ys arbitrary: s) (simp_all add: foldl_map)

lemma sample_eq:
  "sample rnd c y x (ps, w) =
     (if accepted c y x
      then (ps @ [stipple rnd c y x (randoms w)],
            w\<lparr>arcs := arcs w @ [centre (stipple rnd c y x (randoms w))],
               randoms := randoms w + 2,
               sampled := sampled w @ [(y, x)]\<rparr>)
      else (ps, w\<lparr>sampled := sampled w @ [(y, x)]\<rparr>))"
  by (simp add: sample_def Let_def centre_def)

lemma length_stipples [simp]: "length (stipples rnd c k g) = length g"
  by (induction rnd c k g rule: stipples.induct) simp_all

lemma foldl_sample:
  "foldl (\<lambda>s (y, x). sample rnd c y x s) (ps, w) g =
   (let pts = stipples rnd c (randoms w) (filter (\<lambda>(y, x). accepted c y x) g)
    in (ps @ pts,
        w\<lparr>arcs := arcs w @ map centre pts,
           randoms := randoms w + 2 * length pts,
           sampled := sampled w @ g\<rparr>))"
proof (induction g arbitrary: ps w)
  case Nil
  then show ?case by simp
next
  case (Cons a g)
  obtain y x where a: "a = (y, x)" by (cases a)
  show ?case
    unfolding a by (simp add: Cons.IH sample_eq Let_def)
qed

lemma processChunk_band_step:
  assumes "0 < spacing c"
  shows "processChunk rnd c chunkIndex w = Some (request_next c chunkIndex (band_step rnd c chunkIndex w))"
  using assms
  by (simp add: processChunk_def band_loop_lattice foldl_product foldl_sample Let_def
      band_step_def band_points_def band_grid_def band_rows_def)

text \<open>
  The loops do not return when the spacing is zero: a band that has a row to walk, over a
  rectangle of positive width, never finishes, and so neither does its \<open>processChunk\<close>.
  The slider of the component offers the spacings 2 to 30 only.
\<close>

lemma row_loop_Some:
  assumes "row_loop rnd c y x s = Some r"
  shows "\<not> stuck c x"
proof (rule row_loop.raw_induct[where P = "\<lambda>rnd c y x s r. \<not> stuck c x"
        and xa = "((((rnd, c), y), x), s)" and ya = r, unfolded prod.case])
  show "row_loop rnd c y x s = Some r" by (rule assms)
next
  fix row_loop' :: "random_source \<Rightarrow> closure \<Rightarrow> nat \<Rightarrow> nat \<Rightarrow> point list \<times> world
        \<Rightarrow> (point list \<times> world) option"
    and rnd c y x s r
  assume ih: "\<And>rnd c y x s r. row_loop' rnd c y x s = Some r \<Longrightarrow> \<not> stuck c x"
    and st: "(if real x < drawWidth c then row_loop' rnd c y (x + spacing c) (sample rnd c y x s)
          else Some s) = Some r"
  show "\<not> stuck c x"
  proof
    assume a: "stuck c x"
    with st have "row_loop' rnd c y x (sample rnd c y x s) = Some r" by (simp add: stuck_def)
    from ih[OF this] a show False by simp
  qed
qed

lemma row_loop_diverges:
  assumes "spacing c = 0" "real x < drawWidth c"
  shows "row_loop rnd c y x s = None"
proof (cases "row_loop rnd c y x s")
  case None
  then show ?thesis .
next
  case (Some r)
  from row_loop_Some[OF this] assms show ?thesis by (simp add: stuck_def)
qed

lemma band_loop_diverges:
  assumes "spacing c = 0" "real y < endY" "0 < drawWidth c"
  shows "band_loop rnd c endY y s = None"
  using assms row_loop_diverges[of c 0 rnd y s]
  by (subst band_loop.simps) simp

lemma processChunk_diverges:
  assumes "spacing c = 0" "real (chunkIndex * chunkSize) < drawHeight c" "0 < drawWidth c"
  shows "processChunk rnd c chunkIndex w = None"
proof -
  have "real (chunkIndex * chunkSize) < min (real (chunkIndex * chunkSize + chunkSize)) (drawHeight c)"
    using assms(2) by (simp add: chunkSize_def)
  then show ?thesis
    using assms by (simp add: processChunk_def Let_def band_loop_diverges)
qed

section \<open>A run, band after band\<close>

lemma grid_stipple [simp]: "grid (stipple rnd c y x k) = (y, x)"
  by (simp add: grid_def stipple_def Let_def)

lemma map_grid_stipples [simp]: "map grid (stipples rnd c k g) = g"
  by (induction rnd c k g rule: stipples.induct) simp_all


lemma frames_save_chunk [simp]: "frames (save_chunk c pts w) = frames w"
  by (simp add: save_chunk_def)

lemma frames_band_step [simp]: "frames (band_step rnd c i w) = frames w"
  by (simp add: band_step_def Let_def)

lemma loads_band_step [simp]: "loads (band_step rnd c i w) = loads w"
  by (simp add: band_step_def Let_def save_chunk_def)

lemma randoms_band_step [simp]:
  "randoms (band_step rnd c i w) = randoms w + 2 * length (band_points rnd c i (randoms w))"
  by (simp add: band_step_def Let_def save_chunk_def)

lemma arcs_band_step [simp]:
  "arcs (band_step rnd c i w) = arcs w @ map centre (band_points rnd c i (randoms w))"
  by (simp add: band_step_def Let_def save_chunk_def)

lemma sampled_band_step [simp]:
  "sampled (band_step rnd c i w) = sampled w @ band_grid c i"
  by (simp add: band_step_def Let_def save_chunk_def)

lemma sent_band_step [simp]:
  "sent (band_step rnd c i w) =
     sent w @ (if truthy (filePath c)
               then [Save_chunk (the (filePath c)) (chunk_text (band_points rnd c i (randoms w)))]
               else [])"
  by (simp add: band_step_def Let_def save_chunk_def)

lemma band_step_frames_update:
  "band_step rnd c i (w\<lparr>frames := fs\<rparr>) = (band_step rnd c i w)\<lparr>frames := fs\<rparr>"
  by (simp add: band_step_def Let_def save_chunk_def)

lemma frames_empty_update: "frames w = [] \<Longrightarrow> w\<lparr>frames := []\<rparr> = w"
  by simp

lemma run_from_step:
  "int i < totalChunks c - 1 \<Longrightarrow> run_from rnd c i w = run_from rnd c (i + 1) (band_step rnd c i w)"
  by (subst run_from.simps) (simp add: Let_def)

lemma run_from_last:
  "\<not> int i < totalChunks c - 1 \<Longrightarrow> run_from rnd c i w = band_step rnd c i w"
  by (subst run_from.simps) (simp add: Let_def)



lemma frames_run_from [simp]: "frames (run_from rnd c i w) = frames w"
  by (induction rnd c i w rule: run_from.induct)
     (subst run_from.simps, simp add: Let_def)

lemma drain_run_from:
  assumes "0 < spacing c" "frames w = []"
  shows "Option.bind (processChunk rnd c i w) (drain rnd) = Some (run_from rnd c i w)"
  using assms
proof (induction rnd c i w rule: run_from.induct)
  case (1 rnd c i w)
  define w' where "w' = band_step rnd c i w"
  have fw': "frames w' = []" using 1(3) by (simp add: w'_def)
  show ?case
  proof (cases "int i < totalChunks c - 1")
    case True
    have "Option.bind (processChunk rnd c i w) (drain rnd) = drain rnd (w'\<lparr>frames := [(c, i + 1)]\<rparr>)"
      using 1(2) True fw' by (simp add: processChunk_band_step request_next_def w'_def)
    also have "\<dots> = Option.bind (processChunk rnd c (i + 1) w') (drain rnd)"
      using fw' by (subst drain.simps) (simp add: animation_frame_def frames_empty_update)
    also have "\<dots> = Some (run_from rnd c (i + 1) w')"
      using 1(1)[OF w'_def True 1(2) fw'] .
    finally show ?thesis using True by (simp add: run_from_step w'_def)
  next
    case False
    have "Option.bind (processChunk rnd c i w) (drain rnd) = drain rnd w'"
      using 1(2) False by (simp add: processChunk_band_step request_next_def w'_def)
    also have "\<dots> = Some w'" using fw' by (subst drain.simps) simp
    finally show ?thesis using False by (simp add: run_from_last w'_def)
  qed
qed






section \<open>The grid of a band\<close>













lemma concat_none:
  "n \<le> j \<Longrightarrow> concat (map (\<lambda>i::nat. if i = j then xs else []) [0 ..< n]) = []"
  by (induction n) auto


section \<open>The text of a coordinate\<close>

lemma below_ten: "d < 10 \<Longrightarrow> d \<in> {0, 1, 2, 3, 4, 5, 6, 7, 8, 9::nat}"
  by auto

lemma digit_char_props:
  assumes "d < 10"
  shows "is_digit (digit_char d)" "digit_value (digit_char d) = d"
    "digit_char d \<noteq> CHR ''.''" "digit_char d \<noteq> CHR '',''" "digit_char d \<noteq> CHR '' ''"
    "digit_char d \<noteq> CHR ''-''"
  using below_ten[OF assms] by (auto simp: digit_char_def is_digit_def digit_value_def)

lemma digits_small: "n < 10 \<Longrightarrow> digits n = [digit_char n]"
  by (subst digits.simps) simp

lemma digits_large: "\<not> n < 10 \<Longrightarrow> digits n = digits (n div 10) @ [digit_char (n mod 10)]"
  by (subst digits.simps) simp

lemma digits_nonempty: "digits n \<noteq> []"
  by (subst digits.simps) simp

lemma digits_are_digits: "ch \<in> set (digits n) \<Longrightarrow> is_digit ch"
proof (induction n rule: digits.induct)
  case (1 n)
  show ?case
  proof (cases "n < 10")
    case True
    with 1(2) show ?thesis by (simp add: digits_small digit_char_props)
  next
    case False
    with 1 show ?thesis by (auto simp: digits_large digit_char_props)
  qed
qed

lemma decimal_value_snoc:
  "decimal_value (s @ [ch]) = 10 * decimal_value s + digit_value ch"
  by (simp add: decimal_value_def)

lemma decimal_value_digits: "decimal_value (digits n) = n"
proof (induction n rule: digits.induct)
  case (1 n)
  show ?case
  proof (cases "n < 10")
    case True
    then show ?thesis by (simp add: digits_small decimal_value_def digit_char_props)
  next
    case False
    with 1 show ?thesis by (simp add: digits_large decimal_value_snoc digit_char_props)
  qed
qed

lemma is_digit_not_point: "is_digit ch \<Longrightarrow> ch \<noteq> CHR ''.''"
  by (auto simp: is_digit_def)

lemma replace_first_skip:
  "a \<notin> set s \<Longrightarrow> replace_first a b (s @ a # t) = s @ b # t"
  by (induction s) auto

lemma comma_fixed2_shape:
  "comma_fixed2 v =
     (let n = nat \<lfloor>\<bar>v\<bar> * 100 + 1 / 2\<rfloor>
      in (if v < 0 then ''-'' else []) @ digits (n div 100) @ '','' @
         [digit_char (n mod 100 div 10), digit_char (n mod 10)])"
proof -
  define n where "n = nat \<lfloor>\<bar>v\<bar> * 100 + 1 / 2\<rfloor>"
  define s where "s = (if v < 0 then ''-'' else []) @ digits (n div 100)"
  have "CHR ''.'' \<notin> set s"
    using digits_are_digits[of "CHR ''.''" "n div 100"] is_digit_not_point
    by (auto simp: s_def)
  then have "replace_first (CHR ''.'') (CHR '','') (s @ CHR ''.'' # [digit_char (n mod 100 div 10), digit_char (n mod 10)])
      = s @ CHR '','' # [digit_char (n mod 100 div 10), digit_char (n mod 10)]"
    by (rule replace_first_skip)
  then show ?thesis
    by (simp add: comma_fixed2_def toFixed2_def Let_def n_def[symmetric] s_def)
qed

lemma hundredths:
  "nat \<lfloor>\<bar>real_of_int K / 100\<bar> * 100 + 1 / 2\<rfloor> = nat \<bar>K\<bar>"
proof -
  have "\<bar>real_of_int K / 100\<bar> * 100 = real_of_int \<bar>K\<bar>" by simp
  then have "\<lfloor>\<bar>real_of_int K / 100\<bar> * 100 + 1 / 2\<rfloor> = \<lfloor>real_of_int \<bar>K\<bar> + 1 / 2\<rfloor>" by simp
  also have "\<dots> = \<bar>K\<bar>" by linarith
  finally show ?thesis by simp
qed

lemma comma_fixed2_hundredths:
  "comma_fixed2 (real_of_int K / 100) =
     (if K < 0 then ''-'' else []) @ digits (nat \<bar>K\<bar> div 100) @ '','' @
       [digit_char (nat \<bar>K\<bar> mod 100 div 10), digit_char (nat \<bar>K\<bar> mod 10)]"
proof -
  have "real_of_int K / 100 < 0 \<longleftrightarrow> K < 0" by simp
  then show ?thesis
    unfolding comma_fixed2_shape Let_def hundredths by simp
qed

lemma Math_round_near: "\<bar>real_of_int (Math_round v) - v\<bar> \<le> 1 / 2"
  unfolding Math_round_def by linarith

section \<open>The concrete inputs\<close>

lemma length_solid [simp]: "length (solid n px) = n * length px"
  by (induction n) (simp_all add: solid_def)

lemma nth_solid: "i < n * length px \<Longrightarrow> solid n px ! i = px ! (i mod length px)"
proof (induction n arbitrary: i)
  case 0
  then show ?case by simp
next
  case (Suc n)
  have s: "solid (Suc n) px = px @ solid n px" by (simp add: solid_def)
  show ?case
  proof (cases "i < length px")
    case True
    then show ?thesis by (simp add: s nth_append)
  next
    case False
    then have "i - length px < n * length px" using Suc.prems by simp
    then have "solid n px ! (i - length px) = px ! ((i - length px) mod length px)"
      by (rule Suc.IH)
    moreover have "(i - length px) mod length px = i mod length px"
      using False by (simp add: le_mod_geq)
    ultimately show ?thesis using False by (simp add: s nth_append)
  qed
qed

lemma data_at_nat:
  "data_at d (real i) = (if i < length d then Some (uint (d ! i)) else None)"
  by (simp add: data_at_def)

lemma pixel_of_solid:
  assumes "length px = 4" "j < n" "k < 4"
  shows "data_at (solid n px) (real (4 * j + k)) = Some (uint (px ! k))"
proof -
  have "4 * j + k < n * length px" using assms by simp
  moreover have "(4 * j + k) mod length px = k" using assms by simp
  ultimately show ?thesis by (simp only: data_at_nat length_solid nth_solid if_True)
qed

lemma grayscale_at_solid:
  assumes "data c = solid (w * h) px" "drawWidth c = real w" "length px = 4" "x < w" "y < h"
  shows "grayscale_at c y x =
         getGrayscaleValue (alpha c) (uint (px ! 0)) (uint (px ! 1)) (uint (px ! 2))"
proof -
  define j where "j = y * w + x"
  have "j < y * w + w" using assms(4) by (simp add: j_def)
  also have "\<dots> = (y + 1) * w" by simp
  also have "\<dots> \<le> h * w" using assms(5) by (intro mult_le_mono1) simp
  finally have j: "j < w * h" by (simp add: mult.commute)
  define i where "i = (real y * drawWidth c + real x) * 4"
  have i: "i = real (4 * j + 0)" "i + 1 = real (4 * j + 1)" "i + 2 = real (4 * j + 2)"
    by (simp_all add: i_def j_def assms(2))
  have d0: "data_at (data c) i = Some (uint (px ! 0))"
    unfolding i(1) assms(1) by (rule pixel_of_solid[OF assms(3) j]) simp
  have d1: "data_at (data c) (i + 1) = Some (uint (px ! 1))"
    unfolding i(2) assms(1) by (rule pixel_of_solid[OF assms(3) j]) simp
  have d2: "data_at (data c) (i + 2) = Some (uint (px ! 2))"
    unfolding i(3) assms(1) by (rule pixel_of_solid[OF assms(3) j]) simp
  show ?thesis
    unfolding grayscale_at_def Let_def i_def[symmetric] d0 d1 d2 by simp
qed

lemma fl_zero [simp]: "fl 0 = 0"
  by (simp add: fl_def)

lemma luminance_black: "luminance 0 0 0 = 0"
  by (simp add: luminance_def js_add_def js_mul_def)

lemma luminance_white: "luminance 255 255 255 = 255"
  by code_simp

lemma getGrayscaleValue_black: "getGrayscaleValue 128 0 0 0 = 0"
  by (simp add: getGrayscaleValue_def luminance_black)

lemma getGrayscaleValue_white: "getGrayscaleValue 128 255 255 255 = 255"
  by (simp add: getGrayscaleValue_def luminance_white)

lemma fit_closure_own_size:
  assumes "0 < w" "0 < h" "width st = real w" "height st = real h"
  shows "fit_closure (solid_image w h px) st path =
     \<lparr>width = real w, height = real h, inversive = inversive st, spacing = spacing st,
      alpha = alpha st, scaleFactor = 1, filePath = path, drawWidth = real w,
      drawHeight = real h, offsetX = 0, offsetY = 0, data = solid (w * h) px\<rparr>"
  using assms by (simp add: fit_closure_def solid_image_def Let_def)

lemma square_closure:
  "fit_closure (solid_image 10 10 px) (showing 10 10 px 10) path =
     \<lparr>width = 10, height = 10, inversive = False, spacing = 10,
      alpha = 128, scaleFactor = 1, filePath = path, drawWidth = 10,
      drawHeight = 10, offsetX = 0, offsetY = 0, data = solid 100 px\<rparr>"
  using fit_closure_own_size[of 10 10 "showing 10 10 px 10" px path]
  by (simp add: showing_def)

lemma square_grid:
  assumes "spacing c = 10" "drawWidth c = 10" "drawHeight c = 10"
  shows "band_grid c 0 = [(0, 0)]" "totalChunks c = 1"
proof -
  have "lattice 10 0 10 = [0]"
    by (simp add: lattice_step lattice_stop)
  then show "band_grid c 0 = [(0, 0)]"
    by (simp add: band_grid_def band_rows_def columns_def assms chunkSize_def)
  show "totalChunks c = 1"
    by (simp add: totalChunks_def Math_ceil_def assms chunkSize_def ceiling_eq_iff)
qed

lemma square_accepted:
  assumes "data c = solid 100 px" "drawWidth c = 10" "length px = 4" "alpha c = 128"
  shows "accepted c 0 0 \<longleftrightarrow>
     (let grayscale = getGrayscaleValue 128 (uint (px ! 0)) (uint (px ! 1)) (uint (px ! 2))
      in (grayscale > 240 \<and> \<not> inversive c) \<or> (grayscale \<le> 240 \<and> inversive c))"
  using grayscale_at_solid[of c 10 10 px 0 0] assms
  by (simp add: accepted_def)

lemma black_square_run:
  assumes "frames w = []" "path \<noteq> []"
  shows "Option.bind (processImage rnd (solid_image 10 10 black) (showing 10 10 black 10) (Some path) w)
           (drain rnd) =
         Some (w\<lparr>arcs := [], sent := sent w @ [Save_chunk path newline],
                 sampled := sampled w @ [(0, 0)]\<rparr>)"
proof -
  define c where "c = fit_closure (solid_image 10 10 black) (showing 10 10 black 10) (Some path)"
  have c: "spacing c = 10" "drawWidth c = 10" "drawHeight c = 10" "data c = solid 100 black"
    "alpha c = 128" "\<not> inversive c" "filePath c = Some path"
    by (simp_all add: c_def square_closure)
  have acc: "\<not> accepted c 0 0"
    using square_accepted[of c black] c
    by (simp add: black_def getGrayscaleValue_black)
  have "Option.bind (processImage rnd (solid_image 10 10 black) (showing 10 10 black 10) (Some path) w)
           (drain rnd) = Some (run_from rnd c 0 (w\<lparr>arcs := []\<rparr>))"
    unfolding processImage_def c_def[symmetric]
    using assms c by (intro drain_run_from) simp_all
  also have "run_from rnd c 0 (w\<lparr>arcs := []\<rparr>) = band_step rnd c 0 (w\<lparr>arcs := []\<rparr>)"
    by (rule run_from_last) (simp add: square_grid[OF c(1,2,3)])
  also have "\<dots> = w\<lparr>arcs := [], sent := sent w @ [Save_chunk path newline],
                 sampled := sampled w @ [(0, 0)]\<rparr>"
    using acc assms(2)
    by (simp add: band_step_def band_points_def square_grid[OF c(1,2,3)] save_chunk_def
        truthy_def c chunk_text_def)
  finally show ?thesis .
qed

lemma white_square_run:
  assumes "frames w = []" "path \<noteq> []"
  shows "Option.bind (processImage rnd (solid_image 10 10 white) (showing 10 10 white 10) (Some path) w)
           (drain rnd) =
         (let p = stipple rnd (fit_closure (solid_image 10 10 white) (showing 10 10 white 10) (Some path))
                    0 0 (randoms w)
          in Some (w\<lparr>arcs := [centre p], sent := sent w @ [Save_chunk path (line p @ newline)],
                     randoms := randoms w + 2, sampled := sampled w @ [(0, 0)]\<rparr>))"
proof -
  define c where "c = fit_closure (solid_image 10 10 white) (showing 10 10 white 10) (Some path)"
  have c: "spacing c = 10" "drawWidth c = 10" "drawHeight c = 10" "data c = solid 100 white"
    "alpha c = 128" "\<not> inversive c" "filePath c = Some path"
    by (simp_all add: c_def square_closure)
  have acc: "accepted c 0 0"
    using square_accepted[of c white] c
    by (simp add: white_def getGrayscaleValue_white)
  have "Option.bind (processImage rnd (solid_image 10 10 white) (showing 10 10 white 10) (Some path) w)
           (drain rnd) = Some (run_from rnd c 0 (w\<lparr>arcs := []\<rparr>))"
    unfolding processImage_def c_def[symmetric]
    using assms c by (intro drain_run_from) simp_all
  also have "run_from rnd c 0 (w\<lparr>arcs := []\<rparr>) = band_step rnd c 0 (w\<lparr>arcs := []\<rparr>)"
    by (rule run_from_last) (simp add: square_grid[OF c(1,2,3)])
  also have "\<dots> = (let p = stipple rnd c 0 0 (randoms w)
          in w\<lparr>arcs := [centre p], sent := sent w @ [Save_chunk path (line p @ newline)],
                     randoms := randoms w + 2, sampled := sampled w @ [(0, 0)]\<rparr>)"
    using acc assms(2)
    by (simp add: band_step_def band_points_def square_grid[OF c(1,2,3)] save_chunk_def
        truthy_def c chunk_text_def Let_def)
  finally show ?thesis by (simp add: Let_def c_def)
qed

lemma digits_0: "digits 0 = ''0''"
  by (simp add: digits_small digit_char_def)
lemma digits_10: "digits 10 = ''10''"
  by (simp add: digits_small digits_large digit_char_def)

lemma square_stipple_no_jitter:
  "stipple no_jitter (fit_closure (solid_image 10 10 px) (showing 10 10 px 10) path) 0 0 k =
     \<lparr>grid_x = 0, grid_y = 0, canvasX = 0, canvasY = 0, scaledX = 0, scaledY = 10,
      line = ''0,00 10,00''\<rparr>"
proof -
  have x: "comma_fixed2 0 = ''0,00''"
    using comma_fixed2_hundredths[of 0] by (simp add: digits_0 digit_char_def)
  have y: "comma_fixed2 10 = ''10,00''"
    using comma_fixed2_hundredths[of 1000] by (simp add: digits_10 digit_char_def)
  show ?thesis
    by (simp add: stipple_def square_closure no_jitter_def Math_round_def x y)
qed

section \<open>The accept rule\<close>




section \<open>The two examples of the specification\<close>

text \<open>
  C2 (as amended). For a 10 by 10 image shown in a 10 by 10 viewport with threshold 128,
  spacing 10 and no inversion, the run has one band and one grid point, \<open>(0, 0)\<close>. When the
  image is black the point is rejected: nothing is drawn and the run emits one chunk, a
  single newline. When the image is white the point is accepted: one dot is drawn and the
  run emits one chunk of one line, which is \<open>0,00 10,00\<close> when the jitter is zero.
\<close>

theorem solid_square_runs:
  assumes "frames w = []" "path \<noteq> []"
  shows "Option.bind (processImage rnd (solid_image 10 10 black) (showing 10 10 black 10) (Some path) w)
           (drain rnd) =
         Some (w\<lparr>arcs := [], sent := sent w @ [Save_chunk path newline],
                 sampled := sampled w @ [(0, 0)]\<rparr>) \<and>
         Option.bind (processImage rnd (solid_image 10 10 white) (showing 10 10 white 10) (Some path) w)
           (drain rnd) =
         (let p = stipple rnd (fit_closure (solid_image 10 10 white) (showing 10 10 white 10) (Some path))
                    0 0 (randoms w)
          in Some (w\<lparr>arcs := [centre p], sent := sent w @ [Save_chunk path (line p @ newline)],
                     randoms := randoms w + 2, sampled := sampled w @ [(0, 0)]\<rparr>)) \<and>
         line (stipple no_jitter
                 (fit_closure (solid_image 10 10 white) (showing 10 10 white 10) (Some path)) 0 0
                 (randoms w)) = ''0,00 10,00''"
  using black_square_run[OF assms] white_square_run[OF assms]
  by (simp add: square_stipple_no_jitter)

theorem solid_square_runs_witness:
  "Option.bind (processImage no_jitter (solid_image 10 10 white) (showing 10 10 white 10)
       (Some ''out.txt'') blank) (drain no_jitter) =
     Some (blank\<lparr>arcs := [(0, 0)], sent := [Save_chunk ''out.txt'' (''0,00 10,00'' @ newline)],
                 randoms := 2, sampled := [(0, 0)]\<rparr>)"
  using solid_square_runs[of blank "''out.txt''" no_jitter]
  by (simp add: blank_def square_stipple_no_jitter centre_def)

text \<open>
  As stated, the claim has the two images the other way round: it expects a line for the
  black image and none for the white one.
\<close>

theorem black_square_counterexample:
  "Option.bind (processImage no_jitter (solid_image 10 10 black) (showing 10 10 black 10)
       (Some ''out.txt'') blank) (drain no_jitter) =
     Some (blank\<lparr>sent := [Save_chunk ''out.txt'' newline], sampled := [(0, 0)]\<rparr>) \<and>
   Option.bind (processImage no_jitter (solid_image 10 10 white) (showing 10 10 white 10)
       (Some ''out.txt'') blank) (drain no_jitter) =
     Some (blank\<lparr>arcs := [(0, 0)], sent := [Save_chunk ''out.txt'' (''0,00 10,00'' @ newline)],
                 randoms := 2, sampled := [(0, 0)]\<rparr>)"
  using black_square_run[of blank "''out.txt''" no_jitter]
    white_square_run[of blank "''out.txt''" no_jitter]
  by (simp add: blank_def square_stipple_no_jitter centre_def)

section \<open>The exported line\<close>

lemma two_decimals_shape:
  "\<exists>ip d1 d2. two_decimals k = (if k < 0 then ''-'' else []) @ ip @ '','' @ [d1, d2] \<and>
     ip \<noteq> [] \<and> list_all is_digit ip \<and> is_digit d1 \<and> is_digit d2 \<and>
     int (decimal_value ip) * 100 + int (digit_value d1) * 10 + int (digit_value d2) = \<bar>k\<bar>"
proof -
  define n where "n = nat \<bar>k\<bar>"
  have d: "n mod 100 div 10 < 10" "n mod 10 < 10" by simp_all
  have "n mod 100 div 10 * 10 + n mod 100 mod 10 = n mod 100" by simp
  moreover have "n mod 100 mod 10 = n mod 10" by (simp add: mod_mod_cancel)
  moreover have "n div 100 * 100 + n mod 100 = n" by simp
  ultimately have "n div 100 * 100 + n mod 100 div 10 * 10 + n mod 10 = n"
    by linarith
  then have e: "int (n div 100 * 100 + n mod 100 div 10 * 10 + n mod 10) = int n"
    by (rule arg_cong)
  have "int (n div 100) * 100 + int (n mod 100 div 10) * 10 + int (n mod 10)
      = int (n div 100 * 100 + n mod 100 div 10 * 10 + n mod 10)"
    by (simp only: of_nat_add of_nat_mult of_nat_numeral)
  also have "\<dots> = int n" by (rule e)
  also have "\<dots> = \<bar>k\<bar>" by (simp add: n_def)
  finally have v: "int (n div 100) * 100 + int (n mod 100 div 10) * 10 + int (n mod 10) = \<bar>k\<bar>" .
  have "two_decimals k = (if k < 0 then ''-'' else []) @ digits (n div 100) @ '','' @
      [digit_char (n mod 100 div 10), digit_char (n mod 10)]"
    by (simp add: two_decimals_def n_def)
  moreover have "digits (n div 100) \<noteq> []" by (rule digits_nonempty)
  moreover have "list_all is_digit (digits (n div 100))"
    using digits_are_digits by (simp add: list_all_iff)
  moreover have "is_digit (digit_char (n mod 100 div 10))" "is_digit (digit_char (n mod 10))"
    using d by (simp_all add: digit_char_props)
  moreover have "int (decimal_value (digits (n div 100))) * 100
      + int (digit_value (digit_char (n mod 100 div 10))) * 10
      + int (digit_value (digit_char (n mod 10))) = \<bar>k\<bar>"
    using v d by (simp add: decimal_value_digits digit_char_props)
  ultimately show ?thesis
    by (intro exI[of _ "digits (n div 100)"] exI[of _ "digit_char (n mod 100 div 10)"]
        exI[of _ "digit_char (n mod 10)"] conjI)
qed

lemma comma_fixed2_two_decimals: "comma_fixed2 (real_of_int k / 100) = two_decimals k"
  by (simp add: comma_fixed2_hundredths two_decimals_def)

text \<open>
  The line of an accepted point, in terms of the scale factor in the scope of its run: the
  horizontal value \<open>canvasX / scaleFactor\<close> and the vertical value
  \<open>(height - canvasY) / scaleFactor\<close>, where \<open>(canvasX, canvasY)\<close> is the jittered position
  of the dot and \<open>height\<close> the height of the viewport, each rounded to the nearest hundredth
  and written with exactly two decimals after a comma, the two joined by one space. The
  text of \<open>k\<close> hundredths is an optional minus sign, the digits of the integer part, a
  comma and two digits, and reads back as \<open>\<bar>k\<bar>\<close>.
\<close>

lemma export_line:
  assumes "p = stipple rnd c y x k" "0 < scaleFactor c"
    "\<bar>canvasX p / scaleFactor c\<bar> < 10 ^ 21" "\<bar>(height c - canvasY p) / scaleFactor c\<bar> < 10 ^ 21"
  shows "line p = two_decimals (Math_round (canvasX p / scaleFactor c * 100)) @ '' '' @
                  two_decimals (Math_round ((height c - canvasY p) / scaleFactor c * 100)) \<and>
         \<bar>scaledX p - canvasX p / scaleFactor c\<bar> \<le> 1 / 200 \<and>
         \<bar>scaledY p - (height c - canvasY p) / scaleFactor c\<bar> \<le> 1 / 200 \<and>
         scaledX p = real_of_int (Math_round (canvasX p / scaleFactor c * 100)) / 100 \<and>
         scaledY p = real_of_int (Math_round ((height c - canvasY p) / scaleFactor c * 100)) / 100 \<and>
         (\<forall>k. \<exists>ip d1 d2. two_decimals k = (if k < 0 then ''-'' else []) @ ip @ '','' @ [d1, d2] \<and>
            ip \<noteq> [] \<and> list_all is_digit ip \<and> is_digit d1 \<and> is_digit d2 \<and>
            int (decimal_value ip) * 100 + int (digit_value d1) * 10 + int (digit_value d2) = \<bar>k\<bar>)"
proof -
  have l: "line p = two_decimals (Math_round (canvasX p / scaleFactor c * 100)) @ '' '' @
                  two_decimals (Math_round ((height c - canvasY p) / scaleFactor c * 100))"
    unfolding assms(1) by (simp add: stipple_def Let_def comma_fixed2_two_decimals)
  have sx: "scaledX p = real_of_int (Math_round (canvasX p / scaleFactor c * 100)) / 100"
    unfolding assms(1) by (simp add: stipple_def Let_def)
  have sy: "scaledY p = real_of_int (Math_round ((height c - canvasY p) / scaleFactor c * 100)) / 100"
    unfolding assms(1) by (simp add: stipple_def Let_def)
  have near: "\<bar>real_of_int (Math_round (v * 100)) / 100 - v\<bar> \<le> 1 / 200" for v
    using Math_round_near[of "v * 100"] by linarith
  have ex: "\<bar>scaledX p - canvasX p / scaleFactor c\<bar> \<le> 1 / 200"
    unfolding sx by (rule near)
  have ey: "\<bar>scaledY p - (height c - canvasY p) / scaleFactor c\<bar> \<le> 1 / 200"
    unfolding sy by (rule near)
  show ?thesis
    by (intro conjI allI) (rule l ex ey sx sy two_decimals_shape)+
qed

lemma export_line_example:
  "line (stipple no_jitter (fit_closure (solid_image 10 10 white) (showing 10 10 white 10) None) 0 0 0)
     = two_decimals 0 @ '' '' @ two_decimals 1000"
proof -
  define c where "c = fit_closure (solid_image 10 10 white) (showing 10 10 white 10) None"
  define p where "p = stipple no_jitter c 0 0 0"
  have p: "canvasX p = 0" "canvasY p = 0"
    by (simp_all add: p_def c_def square_stipple_no_jitter)
  have c: "scaleFactor c = 1" "height c = 10"
    by (simp_all add: c_def square_closure)
  have "line p = two_decimals (Math_round (canvasX p / scaleFactor c * 100)) @ '' '' @
                  two_decimals (Math_round ((height c - canvasY p) / scaleFactor c * 100))"
    using export_line[of p no_jitter c 0 0 0] p c by (simp add: p_def)
  then show ?thesis
    unfolding p c Math_round_def by (simp add: p_def c_def)
qed

section \<open>Acceptance and jitter\<close>







lemma x_stipple [simp]: "grid_x (stipple rnd c y x k) = x" "grid_y (stipple rnd c y x k) = y"
  by (simp_all add: stipple_def Let_def)



section \<open>The sampled grid\<close>













section \<open>The chunks of a run\<close>





section \<open>The component\<close>

lemma frames_updateCanvas [simp]: "frames (updateCanvas st p w) = frames w"
  by (simp add: updateCanvas_def split: option.splits)

lemma frames_save_effect [simp]: "frames (snd (save_effect st w)) = frames w"
  by (simp add: save_effect_def Let_def)

lemma frames_commit [simp]: "frames (snd (commit old new w)) = frames w"
  by (simp add: commit_def Let_def split: prod.splits if_splits)
     (metis frames_save_effect snd_conv)

lemma frames_handler [simp]: "frames (snd (handler ev st w)) = frames w"
  by (cases ev) (simp_all add: handleClear_def handleSave_def handleResize_def)

lemma dispatch_user:
  assumes "ev \<noteq> ImageLoaded" "ev \<noteq> AnimationFrame"
  shows "dispatch rnd ev (st, w) =
         Some (commit st (fst (handler ev st w)) (snd (handler ev st w)))"
  using assms by (cases ev) (simp_all add: dispatch_def split: prod.splits)

lemma commit_settings:
  assumes "savePath new = savePath old"
  shows "commit old new w =
         (new, if canvas_deps new \<noteq> canvas_deps old then updateCanvas new None w else w)"
  using assms by (simp add: commit_def Let_def)

lemma frames_request_next:
  "frames (request_next c i w) =
     frames w @ (if int i < totalChunks c - 1 then [(c, i + 1)] else [])"
  by (simp add: request_next_def)

lemma arcs_request_next [simp]: "arcs (request_next c i w) = arcs w"
  by (simp add: request_next_def)

lemma sent_request_next [simp]: "sent (request_next c i w) = sent w"
  by (simp add: request_next_def)

lemma loads_request_next [simp]: "loads (request_next c i w) = loads w"
  by (simp add: request_next_def)

lemma randoms_request_next [simp]: "randoms (request_next c i w) = randoms w"
  by (simp add: request_next_def)

lemma fit_closure_fields [simp]:
  "spacing (fit_closure img st path) = spacing st"
  "alpha (fit_closure img st path) = alpha st"
  "inversive (fit_closure img st path) = inversive st"
  "width (fit_closure img st path) = width st"
  "height (fit_closure img st path) = height st"
  "filePath (fit_closure img st path) = path"
  "scaleFactor (fit_closure img st path) = 1"
  by (simp_all add: fit_closure_def Let_def)

lemma dispatch_ImageLoaded:
  assumes "loads w = (img, st', path) # rest"
  shows "dispatch rnd ImageLoaded (st, w) =
         map_option (Pair st)
           (processChunk rnd (fit_closure img st' path) 0 (w\<lparr>loads := rest, arcs := []\<rparr>))"
  using assms by (simp add: dispatch_def image_loaded_def processImage_def)


text \<open>
  C10. The clear operation sets the image to none and, when a canvas is mounted, blanks
  it. The spacing, the threshold, the inversion flag, the scale factor, the width and the
  height of the viewport and the save path are left as they were, and so are the messages
  sent and the pending callbacks and loads.
\<close>

theorem clear_keeps_settings:
  "\<exists>st' w'. dispatch rnd Clear (st, w) = Some (st', w') \<and>
     imageFile st' = None \<and> arcs w' = (if imageFile st = None then arcs w else []) \<and>
     spacing st' = spacing st \<and> alpha st' = alpha st \<and> inversive st' = inversive st \<and>
     scaleFactor st' = scaleFactor st \<and> width st' = width st \<and> height st' = height st \<and>
     savePath st' = savePath st \<and>
     sent w' = sent w \<and> frames w' = frames w \<and> loads w' = loads w \<and>
     randoms w' = randoms w \<and> sampled w' = sampled w"
  by (simp add: dispatch_user handleClear_def commit_settings updateCanvas_def)

theorem clear_keeps_settings_witness:
  "dispatch no_jitter Clear (showing 10 10 white 8, blank\<lparr>arcs := [(1, 2)]\<rparr>) =
     Some ((showing 10 10 white 8)\<lparr>imageFile := None\<rparr>, blank)"
proof -
  obtain st' w' where d: "dispatch no_jitter Clear (showing 10 10 white 8, blank\<lparr>arcs := [(1, 2)]\<rparr>) = Some (st', w')"
    and f: "imageFile st' = None" "arcs w' = []" "spacing st' = 8" "alpha st' = 128"
      "inversive st' = False" "scaleFactor st' = 1" "width st' = 10" "height st' = 10"
      "savePath st' = None" "sent w' = []" "frames w' = []" "loads w' = []" "randoms w' = 0"
      "sampled w' = []"
    using clear_keeps_settings[of no_jitter "showing 10 10 white 8" "blank\<lparr>arcs := [(1, 2)]\<rparr>"]
    by (auto simp: showing_def blank_def)
  have "st' = (showing 10 10 white 8)\<lparr>imageFile := None\<rparr>"
    using f by (simp add: showing_def)
  moreover have "w' = blank"
    using f by (simp add: blank_def)
  ultimately show ?thesis using d by simp
qed

text \<open>
  C7 (as amended). With an image loaded, a change of the spacing, of the threshold, of the
  inversion flag or of the size of the viewport, and the choice of a new image, clear the
  canvas and start loading the image for a fresh run; when the image has loaded the run
  starts at band 0, in a scope holding the new values. The scope of a run does not change:
  the callback that a band requests carries the scope the band ran in. A change of the
  scale factor alone changes the state and nothing else: no run starts.
\<close>

theorem settings_change_starts_run:
  assumes "imageFile st = Some img"
  shows
   "(v \<noteq> spacing st \<longrightarrow>
       dispatch rnd (SetSpacing v) (st, w) =
         Some (st\<lparr>spacing := v\<rparr>,
               w\<lparr>arcs := [], loads := loads w @ [(img, st\<lparr>spacing := v\<rparr>, None)]\<rparr>)) \<and>
    (a \<noteq> alpha st \<longrightarrow>
       dispatch rnd (SetAlpha a) (st, w) =
         Some (st\<lparr>alpha := a\<rparr>,
               w\<lparr>arcs := [], loads := loads w @ [(img, st\<lparr>alpha := a\<rparr>, None)]\<rparr>)) \<and>
    dispatch rnd Invert (st, w) =
      Some (st\<lparr>inversive := \<not> inversive st\<rparr>,
            w\<lparr>arcs := [], loads := loads w @ [(img, st\<lparr>inversive := \<not> inversive st\<rparr>, None)]\<rparr>) \<and>
    ((real iw, real_of_int \<lfloor>real ih * 8 / 10\<rfloor>) \<noteq> (width st, height st) \<longrightarrow>
       dispatch rnd (Resize iw ih) (st, w) =
         Some (st\<lparr>width := real iw, height := real_of_int \<lfloor>real ih * 8 / 10\<rfloor>\<rparr>,
               w\<lparr>arcs := [],
                  loads := loads w @
                    [(img, st\<lparr>width := real iw, height := real_of_int \<lfloor>real ih * 8 / 10\<rfloor>\<rparr>,
                      None)]\<rparr>)) \<and>
    dispatch rnd (Upload f) (st\<lparr>imageFile := None\<rparr>, w) =
      Some (st\<lparr>imageFile := Some f\<rparr>,
            w\<lparr>arcs := [], loads := loads w @ [(f, st\<lparr>imageFile := Some f\<rparr>, None)]\<rparr>) \<and>
    (loads w = (img, st', path) # rest \<longrightarrow>
       dispatch rnd ImageLoaded (st, w) =
         map_option (Pair st)
           (processChunk rnd (fit_closure img st' path) 0 (w\<lparr>loads := rest, arcs := []\<rparr>))) \<and>
    spacing (fit_closure img st' path) = spacing st' \<and>
    alpha (fit_closure img st' path) = alpha st' \<and>
    inversive (fit_closure img st' path) = inversive st' \<and>
    width (fit_closure img st' path) = width st' \<and>
    height (fit_closure img st' path) = height st' \<and>
    (0 < spacing c \<longrightarrow>
       (\<exists>w'. processChunk rnd c i w = Some w' \<and>
          frames w' = frames w @ (if int i < totalChunks c - 1 then [(c, i + 1)] else []))) \<and>
    dispatch rnd (SetScaleFactor s) (st, w) = Some (st\<lparr>scaleFactor := s\<rparr>, w)"
proof (intro conjI impI)
  show "dispatch rnd (SetSpacing v) (st, w) =
         Some (st\<lparr>spacing := v\<rparr>,
               w\<lparr>arcs := [], loads := loads w @ [(img, st\<lparr>spacing := v\<rparr>, None)]\<rparr>)"
    if "v \<noteq> spacing st"
    using that assms
    by (simp add: dispatch_user commit_settings canvas_deps_def updateCanvas_def)
  show "dispatch rnd (SetAlpha a) (st, w) =
         Some (st\<lparr>alpha := a\<rparr>,
               w\<lparr>arcs := [], loads := loads w @ [(img, st\<lparr>alpha := a\<rparr>, None)]\<rparr>)"
    if "a \<noteq> alpha st"
    using that assms
    by (simp add: dispatch_user commit_settings canvas_deps_def updateCanvas_def)
  show "dispatch rnd Invert (st, w) =
      Some (st\<lparr>inversive := \<not> inversive st\<rparr>,
            w\<lparr>arcs := [], loads := loads w @ [(img, st\<lparr>inversive := \<not> inversive st\<rparr>, None)]\<rparr>)"
    using assms
    by (simp add: dispatch_user commit_settings canvas_deps_def updateCanvas_def)
  show "dispatch rnd (Resize iw ih) (st, w) =
         Some (st\<lparr>width := real iw, height := real_of_int \<lfloor>real ih * 8 / 10\<rfloor>\<rparr>,
               w\<lparr>arcs := [],
                  loads := loads w @
                    [(img, st\<lparr>width := real iw, height := real_of_int \<lfloor>real ih * 8 / 10\<rfloor>\<rparr>,
                      None)]\<rparr>)"
    if "(real iw, real_of_int \<lfloor>real ih * 8 / 10\<rfloor>) \<noteq> (width st, height st)"
    using that assms
    by (auto simp: dispatch_user handleResize_def commit_settings canvas_deps_def updateCanvas_def)
  show "dispatch rnd (Upload f) (st\<lparr>imageFile := None\<rparr>, w) =
      Some (st\<lparr>imageFile := Some f\<rparr>,
            w\<lparr>arcs := [], loads := loads w @ [(f, st\<lparr>imageFile := Some f\<rparr>, None)]\<rparr>)"
    by (simp add: dispatch_user commit_settings canvas_deps_def updateCanvas_def)
  show "dispatch rnd ImageLoaded (st, w) =
         map_option (Pair st)
           (processChunk rnd (fit_closure img st' path) 0 (w\<lparr>loads := rest, arcs := []\<rparr>))"
    if "loads w = (img, st', path) # rest"
    using that by (rule dispatch_ImageLoaded)
  show "\<exists>w'. processChunk rnd c i w = Some w' \<and>
          frames w' = frames w @ (if int i < totalChunks c - 1 then [(c, i + 1)] else [])"
    if "0 < spacing c"
    using that by (simp add: processChunk_band_step frames_request_next)
  show "dispatch rnd (SetScaleFactor s) (st, w) = Some (st\<lparr>scaleFactor := s\<rparr>, w)"
    by (simp add: dispatch_user commit_settings canvas_deps_def)
qed simp_all

theorem settings_change_starts_run_witness:
  "dispatch no_jitter (SetSpacing 8) (showing 10 10 white 10, blank) =
     Some (showing 10 10 white 8,
           blank\<lparr>loads := [(solid_image 10 10 white, showing 10 10 white 8, None)]\<rparr>) \<and>
   dispatch no_jitter (SetScaleFactor 2) (showing 10 10 white 10, blank) =
     Some ((showing 10 10 white 10)\<lparr>scaleFactor := 2\<rparr>, blank)"
proof -
  have i: "imageFile (showing 10 10 white 10) = Some (solid_image 10 10 white)"
    by (simp add: showing_def)
  have s: "(showing 10 10 white 10)\<lparr>spacing := 8\<rparr> = showing 10 10 white 8"
    "8 \<noteq> spacing (showing 10 10 white 10)"
    by (simp_all add: showing_def)
  have b: "blank\<lparr>arcs := [], loads := loads blank @ [x]\<rparr> = blank\<lparr>loads := [x]\<rparr>" for x
    by (simp add: blank_def)
  note t = settings_change_starts_run[OF i, of 8 no_jitter blank]
  have "dispatch no_jitter (SetSpacing 8) (showing 10 10 white 10, blank) =
     Some (showing 10 10 white 8,
           blank\<lparr>loads := [(solid_image 10 10 white, showing 10 10 white 8, None)]\<rparr>)"
    using t[THEN conjunct1] s by (simp add: b)
  moreover have "dispatch no_jitter (SetScaleFactor 2) (showing 10 10 white 10, blank) =
     Some ((showing 10 10 white 10)\<lparr>scaleFactor := 2\<rparr>, blank)"
    using settings_change_starts_run[OF i, of _ no_jitter blank _ _ _ _ _ _ _ _ _ 2]
    by blast
  ultimately show ?thesis by simp
qed

text \<open>
  After the scale factor is set to 2 nothing is pending, so no run follows; and the scope
  of a later run still holds the scale factor 1.
\<close>

theorem scale_factor_counterexample:
  "dispatch no_jitter (SetScaleFactor 2) (showing 10 10 white 10, blank) =
     Some ((showing 10 10 white 10)\<lparr>scaleFactor := 2\<rparr>, blank) \<and>
   loads blank = [] \<and> frames blank = [] \<and>
   scaleFactor (fit_closure (solid_image 10 10 white)
     ((showing 10 10 white 10)\<lparr>scaleFactor := 2\<rparr>) None) = 1"
  by (simp add: dispatch_user commit_settings canvas_deps_def blank_def)



text \<open>
  A saving run of two bands, superseded by a change of the spacing after its first band:
  the fresh run draws its first band (4 dots), then the pending second band of the old run
  draws 4 more dots and sends its chunk.
\<close>

lemma Math_round_of_int [simp]: "Math_round (real_of_int k) = k"
  unfolding Math_round_def by linarith

lemma Math_round_hundred: "Math_round (real n * 100) = int (n * 100)"
proof -
  have "real n * 100 = real_of_int (int (n * 100))" by simp
  then show ?thesis by (simp only: Math_round_of_int)
qed

lemma comma_fixed2_nat: "comma_fixed2 (real n) = two_decimals (int (n * 100))"
proof -
  have "real n = real_of_int (int (n * 100)) / 100" by simp
  then show ?thesis by (simp only: comma_fixed2_two_decimals)
qed

lemma line_no_jitter:
  assumes "offsetX c = 0" "offsetY c = 0" "scaleFactor c = 1" "height c = real h" "y \<le> h"
  shows "line (stipple no_jitter c y x k) =
         two_decimals (int (x * 100)) @ '' '' @ two_decimals (int ((h - y) * 100))"
proof -
  have d: "(real h - real y) * 100 = real (h - y) * 100"
    using assms(5) by (simp add: of_nat_diff)
  have "line (stipple no_jitter c y x k) =
      comma_fixed2 (real_of_int (Math_round (real x * 100)) / 100) @ '' '' @
      comma_fixed2 (real_of_int (Math_round ((real h - real y) * 100)) / 100)"
    unfolding stipple_def Let_def no_jitter_def by (simp add: assms(1-4))
  also have "\<dots> = comma_fixed2 (real x) @ '' '' @ comma_fixed2 (real (h - y))"
    unfolding d Math_round_hundred by simp
  finally show ?thesis by (simp only: comma_fixed2_nat)
qed

lemma two_decimals_values:
  "two_decimals 0 = ''0,00''" "two_decimals 1000 = ''10,00''" "two_decimals 4000 = ''40,00''"
  "two_decimals 7000 = ''70,00''" "two_decimals 10000 = ''100,00''"
  "two_decimals 11000 = ''110,00''" "two_decimals 14000 = ''140,00''"
  "two_decimals 17000 = ''170,00''" "two_decimals 20000 = ''200,00''"
  by (simp_all add: two_decimals_def digits_small digits_large digit_char_def)







section \<open>The scale factor of the export\<close>

text \<open>
  C8. The claim divides the exported coordinates by the scale factor of the
  configuration. In the code the division is by the \<open>scaleFactor\<close> in the scope of
  \<open>processImage\<close>, which stays the initial 1 (see \<open>fit_closure\<close>), while the text is
  formatted as the claim says (\<open>export_line\<close>). With the scale factor set to 2 before
  saving the 10 by 10 white image, the state holds 2 and the chunk sent is \<open>0,00 10,00\<close>;
  the claim's formula gives \<open>0,00 5,00\<close>.
\<close>

theorem scale_factor_ignored:
  "map_option exported
     (run_events no_jitter [SetScaleFactor 2, StartSaving ''out.txt'', ImageLoaded]
        (showing 10 10 white 10, blank)) =
     Some (2, [Clear_file, Clear_file, Save_chunk ''out.txt'' (''0,00 10,00'' @ newline)]) \<and>
   two_decimals (Math_round (0 / 2 * 100)) @ '' '' @
   two_decimals (Math_round ((10 - 0) / 2 * 100)) = ''0,00 5,00''"
proof -
  define img where "img = solid_image 10 10 white"
  define st0 where "st0 = showing 10 10 white 10"
  define st2 where "st2 = st0\<lparr>scaleFactor := 2\<rparr>"
  define sta where "sta = st2\<lparr>savePath := Some ''out.txt''\<rparr>"
  define c where "c = fit_closure img sta (Some ''out.txt'')"
  have st2: "imageFile st2 = Some img" "savePath st2 = None" "scaleFactor st2 = 2"
    by (simp_all add: st2_def st0_def img_def showing_def)
  have c: "spacing c = 10" "drawWidth c = 10" "drawHeight c = 10" "data c = solid 100 white"
    "alpha c = 128" "\<not> inversive c" "filePath c = Some ''out.txt''"
    "offsetX c = 0" "offsetY c = 0" "scaleFactor c = 1" "height c = real 10"
    by (simp_all add: c_def fit_closure_def Let_def img_def solid_image_def sta_def st2_def
        st0_def showing_def)
  have acc: "accepted c 0 0"
    using square_accepted[of c white] c by (simp add: white_def getGrayscaleValue_white)
  have l: "line (stipple no_jitter c 0 0 k) = ''0,00 10,00''" for k
    using line_no_jitter[OF c(8,9,10,11), of 0 0 k] by (simp add: two_decimals_values)
  have A: "dispatch no_jitter (SetScaleFactor 2) (st0, blank) = Some (st2, blank)"
    by (simp add: dispatch_user commit_settings canvas_deps_def st2_def)
  define wa where "wa = blank\<lparr>sent := [Clear_file, Clear_file], loads := [(img, sta, Some ''out.txt'')]\<rparr>"
  have B: "dispatch no_jitter (StartSaving ''out.txt'') (st2, blank) = Some (st2, wa)"
    using st2(1,2)
    by (simp add: dispatch_user commit_def save_effect_def truthy_def updateCanvas_def
        canvas_deps_def Let_def sta_def wa_def blank_def)
  define wb where "wb = request_next c 0 (band_step no_jitter c 0 (wa\<lparr>loads := [], arcs := []\<rparr>))"
  have C: "dispatch no_jitter ImageLoaded (st2, wa) = Some (st2, wb)"
    using dispatch_ImageLoaded[of wa img sta "Some ''out.txt''" "[]" no_jitter st2] c(1)
    by (simp add: wa_def c_def[symmetric] processChunk_band_step wb_def)
  have "sent wb = [Clear_file, Clear_file, Save_chunk ''out.txt'' (''0,00 10,00'' @ newline)]"
    by (simp add: wb_def wa_def blank_def truthy_def c(7) chunk_text_def band_points_def
        square_grid[OF c(1,2,3)] acc l)
  then have "exported (st2, wb) =
      (2, [Clear_file, Clear_file, Save_chunk ''out.txt'' (''0,00 10,00'' @ newline)])"
    by (simp add: exported_def st2)
  moreover have "run_events no_jitter [SetScaleFactor 2, StartSaving ''out.txt'', ImageLoaded]
        (st0, blank) = Some (st2, wb)"
    by (simp add: A B C)
  moreover have "two_decimals (Math_round (0 / 2 * 100)) @ '' '' @
      two_decimals (Math_round ((10 - 0) / 2 * 100)) = ''0,00 5,00''"
  proof -
    have "Math_round ((10 - 0) / 2 * 100) = 500" "Math_round (0 / 2 * 100) = 0"
      unfolding Math_round_def by simp_all
    then show ?thesis
      by (simp add: two_decimals_def digits_small digit_char_def)
  qed
  ultimately show ?thesis
    unfolding st0_def[symmetric] by simp
qed

end
